theory Spec2Isabelle
  imports Main
begin

section \<open>Configuration\<close>

text \<open>
  The constants that \<open>FanController.__init__\<close> stores on the instance and never
  changes afterwards. Temperatures are degrees Celsius, utilisation is a percentage,
  fan speeds are the raw duty values handed to the BMC.
\<close>

definition INTERVAL :: int where "INTERVAL = 5"

definition GPU_TEMP_LOW :: int where "GPU_TEMP_LOW = 50"
definition GPU_TEMP_MEDIUM :: int where "GPU_TEMP_MEDIUM = 60"
definition GPU_TEMP_HIGH :: int where "GPU_TEMP_HIGH = 70"
definition GPU_TEMP_CRITICAL :: int where "GPU_TEMP_CRITICAL = 80"

definition CPU_TEMP_LOW :: int where "CPU_TEMP_LOW = 35"
definition CPU_TEMP_MEDIUM :: int where "CPU_TEMP_MEDIUM = 45"
definition CPU_TEMP_HIGH :: int where "CPU_TEMP_HIGH = 60"
definition CPU_TEMP_CRITICAL :: int where "CPU_TEMP_CRITICAL = 75"

definition UTIL_LOW :: int where "UTIL_LOW = 30"
definition UTIL_HIGH :: int where "UTIL_HIGH = 70"

definition FAN_DEFAULT :: int where "FAN_DEFAULT = 0x20"
definition FAN_MEDIUM :: int where "FAN_MEDIUM = 0x32"
definition FAN_HIGH :: int where "FAN_HIGH = 0x48"
definition FAN_MAX :: int where "FAN_MAX = 0x64"

section \<open>Python strings\<close>

text \<open>
  A Python \<open>str\<close> is a sequence of code points. The model keeps the code points below
  256, one \<open>char\<close> each, so the degree sign U+00B0 of the source is the single character
  \<open>CHR 0xB0\<close> and \<open>length\<close> counts what Python's \<open>len\<close> counts.
\<close>

definition newline :: string where "newline = [CHR 0x0A]"

definition degC :: string where "degC = [CHR 0xB0, CHR ''C'']"

text \<open>The code points below 256 that \<open>str.strip()\<close> removes.\<close>

definition py_isspace :: "char \<Rightarrow> bool" where
  "py_isspace c = ((of_char c :: nat) \<in> {9, 10, 11, 12, 13, 28, 29, 30, 31, 32, 133, 160})"

definition py_strip :: "string \<Rightarrow> string" where
  "py_strip s = rev (dropWhile py_isspace (rev (dropWhile py_isspace s)))"

text \<open>
  \<open>s.split(sep)\<close> for a non-empty separator: cut at the non-overlapping occurrences of
  \<open>sep\<close>, left to right; the result always has at least one element.
\<close>

fun split_from :: "string \<Rightarrow> string \<Rightarrow> string \<Rightarrow> string list" where
  "split_from sep acc [] = [rev acc]"
| "split_from sep acc (c # cs) =
     (if sep \<noteq> [] \<and> take (length sep) (c # cs) = sep
      then rev acc # split_from sep [] (drop (length sep) (c # cs))
      else split_from sep (c # acc) cs)"

definition py_split :: "string \<Rightarrow> string \<Rightarrow> string list" where
  "py_split s sep = split_from sep [] s"

text \<open>\<open>sub in s\<close>: \<open>sub\<close> occurs in \<open>s\<close> as a contiguous substring.\<close>

fun py_in :: "string \<Rightarrow> string \<Rightarrow> bool" where
  "py_in sub [] = (sub = [])"
| "py_in sub (c # cs) = (take (length sub) (c # cs) = sub \<or> py_in sub cs)"

text \<open>Decimal and hexadecimal digits of a natural number, most significant first.\<close>

definition digit_char :: "nat \<Rightarrow> char" where
  "digit_char d = ''0123456789abcdef'' ! d"

fun digits :: "nat \<Rightarrow> nat \<Rightarrow> string" where
  "digits b n =
     (if b < 2 \<or> n < b then [digit_char n] else digits b (n div b) @ [digit_char (n mod b)])"

declare digits.simps [simp del]

text \<open>\<open>str(i)\<close>, as an f-string renders an integer field.\<close>

definition str_int :: "int \<Rightarrow> string" where
  "str_int i = (if i < 0 then ''-'' else '''') @ digits 10 (nat \<bar>i\<bar>)"

text \<open>
  The format spec \<open>#04x\<close>: sign, the prefix \<open>0x\<close>, then the hexadecimal digits padded
  with zeros after the prefix up to a total width of four.
\<close>

definition format_hex04 :: "int \<Rightarrow> string" where
  "format_hex04 i =
     (let sgn = (if i < 0 then ''-'' else '''');
          ds = digits 16 (nat \<bar>i\<bar>)
      in sgn @ ''0x'' @ replicate (4 - (length sgn + 2 + length ds)) CHR ''0'' @ ds)"

section \<open>Exceptions, the log, the controller's state\<close>

text \<open>
  The exceptions that can travel through the program. \<open>FileNotFoundError\<close> and
  \<open>PermissionError\<close> are the two subclasses of \<open>OSError\<close> the source names; \<open>OSError\<close>
  stands for every other one. \<open>SystemExit\<close> and \<open>KeyboardInterrupt\<close> are not subclasses
  of \<open>Exception\<close>, so \<open>except Exception\<close> lets them pass.
\<close>

datatype py_exc =
    CalledProcessError
  | FileNotFoundError
  | PermissionError
  | ValueError
  | IndexError
  | OSError
  | KeyboardInterrupt
  | SystemExit int

fun is_Exception :: "py_exc \<Rightarrow> bool" where
  "is_Exception KeyboardInterrupt = False"
| "is_Exception (SystemExit code) = False"
| "is_Exception x = True"

text \<open>
  One constructor per logging call of the source, carrying the values its f-string
  interpolates (the text itself, and the rendering of a float percentage or of an
  exception, is formatting).
\<close>

datatype level = INFO | WARNING | ERROR

datatype message =
    RequiredNotInstalled string       \<comment> \<open>"Error: {cmd} is required but not installed."\<close>
  | InstallHint string                \<comment> \<open>"Install with: ..." / "Install NVIDIA drivers"\<close>
  | CommandFailed string              \<comment> \<open>"Command failed: {command}"\<close>
  | ErrorIs py_exc                    \<comment> \<open>"Error: {e}"\<close>
  | FanSpeedSet int string            \<comment> \<open>"Fan speed set to {percentage:.0f}% ({reason})"\<close>
  | FailedToSetFanSpeed py_exc        \<comment> \<open>"Failed to set fan speed: {e}"\<close>
  | RestoredAutomatic                 \<comment> \<open>"Restored automatic fan control"\<close>
  | FailedToRestore py_exc            \<comment> \<open>"Failed to restore automatic fan control: {e}"\<close>
  | CaughtSignal                      \<comment> \<open>"Caught signal, restoring automatic fan control..."\<close>
  | FailedCpuSensors py_exc           \<comment> \<open>"Failed to get CPU temperature from sensors: {e}"\<close>
  | FailedGpuData py_exc              \<comment> \<open>"Failed to get GPU data: {e}"\<close>
  | Starting                          \<comment> \<open>"Starting GPU/CPU fan control script"\<close>
  | SystemTemperatures int int int    \<comment> \<open>"System temperatures: GPU=..., CPU=..., GPU util=..."\<close>
  | UnexpectedError py_exc            \<comment> \<open>"Unexpected error: {e}"\<close>

text \<open>
  The blocking calls the process makes: running a child process and sleeping. The
  sequence of them is the externally visible behaviour of the controller.
\<close>

datatype call = Run string | Sleep int

text \<open>
  The mutable part of a \<open>FanController\<close> (\<open>current_speed\<close>), together with what it has
  written to its logger and the blocking calls it has made so far.
\<close>

record state =
  current_speed :: int
  logged :: "(level \<times> message) list"
  calls :: "call list"

text \<open>A computation either raises (\<open>Inl\<close>) or returns a value (\<open>Inr\<close>), with the state it leaves.\<close>

type_synonym 'a res = "(py_exc \<times> state) + ('a \<times> state)"

definition log_to :: "level \<Rightarrow> message \<Rightarrow> state \<Rightarrow> state" where
  "log_to lv m st = st\<lparr>logged := logged st @ [(lv, m)]\<rparr>"

section \<open>The environment\<close>

text \<open>
  What the operating system answers. A child process exits with status 0 and some
  standard output, exits with another status, or cannot be started at all. Reading one
  \<open>thermal_zone*/temp\<close> file yields its text, or fails because the file is missing, may
  not be read, or with another I/O error.
\<close>

datatype proc_result = Exit0 string | NonZero | SpawnError

datatype zone_read = Content string | Missing | Denied | IOFailure

text \<open>
  The answers may change over time: \<open>proc\<close> and \<open>zones\<close> are indexed by the number of
  blocking calls made so far. \<open>py_int\<close> is \<open>int(s)\<close> and \<open>py_float_int\<close> is
  \<open>int(float(s))\<close>, \<open>None\<close> when the conversion raises; the theorems hold for every such
  pair of conversions.

  \<open>signals\<close> says when SIGINT or SIGTERM arrives. The observable events of the process are
  its log records and its blocking calls, counted together (\<open>events\<close>);
  \<open>k \<in> set (signals e)\<close> means that a signal is handled when \<open>k\<close> events have been issued:
  while the \<open>k\<close>-th of them blocks if it is a call, right after it if it is a record, and
  before anything else if \<open>k = 0\<close>. Between two events the program writes no record and
  makes no call, so a signal that arrives anywhere between two events leaves the same
  records and calls behind as one handled right after the earlier of them: the handler
  can start, and start again, at every point of the program. (The state it starts from
  is the one at that earlier event; the only assignment of the program that falls
  between two events is that of \<open>current_speed\<close> in \<open>set_fan_speed\<close>.)
\<close>

record env =
  proc :: "nat \<Rightarrow> string \<Rightarrow> proc_result"
  zones :: "nat \<Rightarrow> zone_read list"
  signals :: "nat list"
  py_int :: "string \<Rightarrow> int option"
  py_float_int :: "string \<Rightarrow> int option"

text \<open>\<open>events\<close> counts the events so far; \<open>note_call\<close> records a blocking call.\<close>

definition events :: "state \<Rightarrow> nat" where
  "events st = length (logged st) + length (calls st)"

definition note_call :: "call \<Rightarrow> state \<Rightarrow> state" where
  "note_call c st = st\<lparr>calls := calls st @ [c]\<rparr>"

section \<open>Sequencing and \<open>try\<close>/\<open>except\<close>\<close>

definition ret :: "'a \<Rightarrow> state \<Rightarrow> 'a res" where
  "ret v st = Inr (v, st)"

definition seq :: "(state \<Rightarrow> 'a res) \<Rightarrow> ('a \<Rightarrow> state \<Rightarrow> 'b res) \<Rightarrow> state \<Rightarrow> 'b res" where
  "seq m f st = (case m st of Inl r \<Rightarrow> Inl r | Inr (v, st') \<Rightarrow> f v st')"

text \<open>\<open>try: m  except Exception as x: h x\<close>\<close>

definition except_Exception ::
  "(state \<Rightarrow> 'a res) \<Rightarrow> (py_exc \<Rightarrow> state \<Rightarrow> 'a res) \<Rightarrow> state \<Rightarrow> 'a res" where
  "except_Exception m h st =
     (case m st of
        Inl (x, st') \<Rightarrow> if is_Exception x then h x st' else Inl (x, st')
      | Inr r \<Rightarrow> Inr r)"

text \<open>A computation that touches no state: it raises or returns where it stands.\<close>

definition lift :: "py_exc + 'a \<Rightarrow> state \<Rightarrow> 'a res" where
  "lift r st = (case r of Inl x \<Rightarrow> Inl (x, st) | Inr v \<Rightarrow> Inr (v, st))"

section \<open>Signals, child processes and shutdown\<close>

definition manual_cmd :: string where
  "manual_cmd = ''ipmitool raw 0x30 0x30 0x01 0x00''"

definition speed_cmd :: "int \<Rightarrow> string" where
  "speed_cmd speed_hex = ''ipmitool raw 0x30 0x30 0x02 0xff '' @ format_hex04 speed_hex"

definition auto_cmd :: string where
  "auto_cmd = ''ipmitool raw 0x30 0x30 0x01 0x01''"

definition finish :: "env \<Rightarrow> nat \<Rightarrow> string \<Rightarrow> state \<Rightarrow> string res" where
  "finish e k c st =
     (case proc e k c of
        Exit0 out \<Rightarrow> Inr (out, st)
      | NonZero \<Rightarrow> Inl (CalledProcessError, st)
      | SpawnError \<Rightarrow> Inl (OSError, st))"

text \<open>
  The signals still to come become fewer whenever one is handled: the measure under
  which the handler terminates although it may be interrupted itself.
\<close>

lemma later_signals_fewer:
  "k \<in> set xs \<Longrightarrow> n < k \<Longrightarrow>
   length (filter (\<lambda>j. k < j) xs) < length (filter (\<lambda>j. n < j) (xs :: nat list))"
proof (induction xs)
  case Nil
  then show ?case by simp
next
  case (Cons x xs)
  have later: "n < j" if "k < j" for j
    using that Cons.prems(2) by simp
  have mono: "length (filter (\<lambda>j. k < j) xs) \<le> length (filter (\<lambda>j. n < j) xs)"
    by (induction xs) (auto dest: later)
  show ?case
  proof (cases "x = k")
    case True
    then show ?thesis using mono Cons.prems(2) by simp
  next
    case False
    then show ?thesis using Cons by auto
  qed
qed

text \<open>
  \<open>__init__\<close> installs \<open>cleanup\<close> as the handler of SIGINT and SIGTERM, and Python runs a
  handler in the main thread, on top of whatever is executing, \<open>cleanup\<close> included. Its
  last statement is \<open>sys.exit(0)\<close>, so a run of the handler never returns: it ends in an
  exception. \<open>handler\<close> is that run, written out event by event so that a signal can be
  handled after each of them: the record "Caught signal", the restore command, the two
  records of \<open>run_command\<close> when the command exits non-zero, and the record that
  \<open>restore_auto_fan\<close> writes last. That \<open>handler\<close> is \<open>cleanup\<close> as the source composes it is
  the lemma \<open>cleanup_is_handler\<close> below.
\<close>

function handler :: "env \<Rightarrow> state \<Rightarrow> py_exc \<times> state" where
  "handler e st =
     (let s1 = log_to INFO CaughtSignal st;
          s2 = note_call (Run auto_cmd) s1
      in if events s1 \<in> set (signals e) then handler e s1
         else if events s2 \<in> set (signals e) then handler e s2
         else (case proc e (length (calls s1)) auto_cmd of
                 Exit0 out \<Rightarrow>
                   (let s3 = log_to INFO RestoredAutomatic s2
                    in if events s3 \<in> set (signals e) then handler e s3
                       else (SystemExit 0, s3))
               | NonZero \<Rightarrow>
                   (let s3 = log_to ERROR (CommandFailed auto_cmd) s2;
                        s4 = log_to ERROR (ErrorIs CalledProcessError) s3;
                        s5 = log_to INFO RestoredAutomatic s4
                    in if events s3 \<in> set (signals e) then handler e s3
                       else if events s4 \<in> set (signals e) then handler e s4
                       else if events s5 \<in> set (signals e) then handler e s5
                       else (SystemExit 0, s5))
               | SpawnError \<Rightarrow>
                   (let s3 = log_to ERROR (FailedToRestore OSError) s2
                    in if events s3 \<in> set (signals e) then handler e s3
                       else (SystemExit 0, s3))))"
  by pat_completeness auto
termination
  by (relation "measure (\<lambda>(e, st). length (filter (\<lambda>j. events st < j) (signals e)))")
     (auto simp: events_def log_to_def note_call_def intro!: later_signals_fewer)

declare handler.simps [simp del]

text \<open>
  Every event is followed by the check for a signal. \<open>logger\<close> writes a record;
  \<open>subprocess_run\<close> is \<open>subprocess.run(..., check=True)\<close>: the call is issued, and unless a
  signal ends it the child's exit decides between its output, \<open>CalledProcessError\<close> and
  \<open>OSError\<close>.
\<close>

definition logger :: "env \<Rightarrow> level \<Rightarrow> message \<Rightarrow> state \<Rightarrow> unit res" where
  "logger e lv m st =
     (let st' = log_to lv m st
      in if events st' \<in> set (signals e) then Inl (handler e st') else Inr ((), st'))"

definition subprocess_run :: "env \<Rightarrow> string \<Rightarrow> state \<Rightarrow> string res" where
  "subprocess_run e c st =
     (let st' = note_call (Run c) st
      in if events st' \<in> set (signals e) then Inl (handler e st')
         else finish e (length (calls st)) c st')"

text \<open>\<open>run_command\<close> catches \<open>CalledProcessError\<close> only, logs twice and returns \<open>None\<close>.\<close>

definition run_command :: "env \<Rightarrow> string \<Rightarrow> bool \<Rightarrow> state \<Rightarrow> string option res" where
  "run_command e command capture_output st =
     (case subprocess_run e command st of
        Inr (out, st') \<Rightarrow> Inr (if capture_output then Some (py_strip out) else None, st')
      | Inl (x, st') \<Rightarrow>
          if x = CalledProcessError
          then seq (logger e ERROR (CommandFailed command)) (\<lambda>u1.
               seq (logger e ERROR (ErrorIs x)) (\<lambda>u2.
               ret None)) st'
          else Inl (x, st'))"

definition restore_auto_fan :: "env \<Rightarrow> state \<Rightarrow> unit res" where
  "restore_auto_fan e =
     except_Exception
       (seq (run_command e auto_cmd False) (\<lambda>u. logger e INFO RestoredAutomatic))
       (\<lambda>x. logger e ERROR (FailedToRestore x))"

definition cleanup :: "env \<Rightarrow> state \<Rightarrow> unit res" where
  "cleanup e =
     seq (logger e INFO CaughtSignal) (\<lambda>u1.
     seq (restore_auto_fan e) (\<lambda>u2 st.
     Inl (SystemExit 0, st)))"


section \<open>The actuator\<close>

text \<open>
  \<open>set_fan_speed\<close>: both commands go through \<open>run_command\<close>, whose return value is not
  looked at; the log line and the assignment to \<open>current_speed\<close> follow inside the \<open>try\<close>.
\<close>

definition set_fan_speed :: "env \<Rightarrow> int \<Rightarrow> string \<Rightarrow> state \<Rightarrow> unit res" where
  "set_fan_speed e speed_hex reason =
     except_Exception
       (seq (run_command e manual_cmd False) (\<lambda>u1.
        seq (run_command e (speed_cmd speed_hex) False) (\<lambda>u2.
        seq (logger e INFO (FanSpeedSet speed_hex reason)) (\<lambda>u3 st.
        Inr ((), st\<lparr>current_speed := speed_hex\<rparr>)))))
       (\<lambda>x. logger e ERROR (FailedToSetFanSpeed x))"

section \<open>The sensors\<close>

text \<open>
  One pass of the loop over \<open>thermal_zone*/temp\<close>: open, read, strip, \<open>int\<close>. The
  \<open>except\<close> clause names three exception classes; anything else leaves the loop.
\<close>

definition read_zone :: "env \<Rightarrow> zone_read \<Rightarrow> py_exc + int" where
  "read_zone e z =
     (case z of
        Content text \<Rightarrow>
          (case py_int e (py_strip text) of None \<Rightarrow> Inl ValueError | Some m \<Rightarrow> Inr m)
      | Missing \<Rightarrow> Inl FileNotFoundError
      | Denied \<Rightarrow> Inl PermissionError
      | IOFailure \<Rightarrow> Inl OSError)"

fun zone_loop :: "env \<Rightarrow> zone_read list \<Rightarrow> int \<Rightarrow> py_exc + int" where
  "zone_loop e [] max_temp = Inr max_temp"
| "zone_loop e (z # zs) max_temp =
     (case read_zone e z of
        Inr temp_millidegrees \<Rightarrow>
          (let temp_celsius = temp_millidegrees div 1000
           in zone_loop e zs (if temp_celsius > max_temp then temp_celsius else max_temp))
      | Inl x \<Rightarrow>
          if x \<in> {FileNotFoundError, ValueError, PermissionError} then zone_loop e zs max_temp
          else Inl x)"

text \<open>
  The loop over the lines of \<open>sensors\<close>. It runs inside a \<open>try\<close> whose handler only logs,
  so an exception in a line ends the loop and keeps the maximum reached so far: the
  result is that maximum and the exception, if any.
\<close>

fun package_loop :: "env \<Rightarrow> string list \<Rightarrow> int \<Rightarrow> int \<times> py_exc option" where
  "package_loop e [] max_temp = (max_temp, None)"
| "package_loop e (line # rest) max_temp =
     (if py_in ''Package id'' line \<and> py_in degC line
      then (case py_split line ''+'' of
              p0 # p1 # ps \<Rightarrow>
                (case py_split p1 degC of
                   temp_str # qs \<Rightarrow>
                     (case py_float_int e temp_str of
                        Some temp \<Rightarrow>
                          package_loop e rest (if temp > max_temp then temp else max_temp)
                      | None \<Rightarrow> (max_temp, Some ValueError))
                 | [] \<Rightarrow> (max_temp, Some IndexError))
            | ps \<Rightarrow> (max_temp, Some IndexError))
      else package_loop e rest max_temp)"

definition sensors_cmd :: string where
  "sensors_cmd = ''sensors''"

definition get_cpu_temp :: "env \<Rightarrow> state \<Rightarrow> int res" where
  "get_cpu_temp e st =
     (case zone_loop e (zones e (length (calls st))) 0 of
        Inl x \<Rightarrow> Inl (x, st)
      | Inr max_temp \<Rightarrow>
          if max_temp = 0
          then (case run_command e sensors_cmd True st of
                  Inl (x, st') \<Rightarrow>
                    if is_Exception x
                    then seq (logger e WARNING (FailedCpuSensors x)) (\<lambda>u. ret max_temp) st'
                    else Inl (x, st')
                | Inr (sensors_output, st') \<Rightarrow>
                    (case sensors_output of
                       None \<Rightarrow> Inr (max_temp, st')
                     | Some out \<Rightarrow>
                         if out = [] then Inr (max_temp, st')
                         else (case package_loop e (py_split out newline) max_temp of
                                 (m, None) \<Rightarrow> Inr (m, st')
                               | (m, Some x) \<Rightarrow>
                                   if is_Exception x
                                   then seq (logger e WARNING (FailedCpuSensors x))
                                          (\<lambda>u. ret m) st'
                                   else Inl (x, st'))))
          else Inr (max_temp, st))"

text \<open>The loop over the rows of \<open>nvidia-smi\<close>: one \<open>temperature, utilisation\<close> pair per GPU.\<close>

fun gpu_loop :: "env \<Rightarrow> string list \<Rightarrow> int \<Rightarrow> int \<Rightarrow> py_exc + (int \<times> int)" where
  "gpu_loop e [] max_temp max_util = Inr (max_temp, max_util)"
| "gpu_loop e (line # rest) max_temp max_util =
     (if py_strip line \<noteq> []
      then (case py_split line '','' of
              p0 # p1 # ps \<Rightarrow>
                (case py_int e (py_strip p0) of
                   None \<Rightarrow> Inl ValueError
                 | Some temp \<Rightarrow>
                     (case py_int e (py_strip p1) of
                        None \<Rightarrow> Inl ValueError
                      | Some util \<Rightarrow>
                          gpu_loop e rest (if temp > max_temp then temp else max_temp)
                                          (if util > max_util then util else max_util)))
            | ps \<Rightarrow> gpu_loop e rest max_temp max_util)
      else gpu_loop e rest max_temp max_util)"

definition nvidia_cmd :: string where
  "nvidia_cmd =
     ''nvidia-smi --query-gpu=temperature.gpu,utilization.gpu --format=csv,noheader,nounits''"

definition get_gpu_data :: "env \<Rightarrow> state \<Rightarrow> (int \<times> int) res" where
  "get_gpu_data e =
     except_Exception
       (seq (run_command e nvidia_cmd True) (\<lambda>output.
          case output of
            None \<Rightarrow> ret (0, 0)
          | Some out \<Rightarrow>
              if out = [] then ret (0, 0)
              else lift (gpu_loop e (py_split out newline) 0 0)))
       (\<lambda>x. seq (logger e ERROR (FailedGpuData x)) (\<lambda>u. ret (0, 0)))"

section \<open>The threshold policy\<close>

definition determine_fan_speed :: "state \<Rightarrow> int \<Rightarrow> int \<Rightarrow> int \<Rightarrow> int \<times> string" where
  "determine_fan_speed self gpu_temp cpu_temp gpu_util =
     (if gpu_temp \<ge> GPU_TEMP_CRITICAL \<or> cpu_temp \<ge> CPU_TEMP_CRITICAL
      then (FAN_MAX, ''CRITICAL temperature (GPU: '' @ str_int gpu_temp @ degC @ '', CPU: ''
                       @ str_int cpu_temp @ degC @ '')'')
      else if gpu_temp \<ge> GPU_TEMP_HIGH \<or> cpu_temp \<ge> CPU_TEMP_HIGH
      then (FAN_HIGH, ''HIGH temperature (GPU: '' @ str_int gpu_temp @ degC @ '', CPU: ''
                       @ str_int cpu_temp @ degC @ '')'')
      else if gpu_temp \<ge> GPU_TEMP_MEDIUM \<or> cpu_temp \<ge> CPU_TEMP_MEDIUM
                \<or> gpu_util \<ge> UTIL_HIGH
      then (FAN_MEDIUM, ''MEDIUM temperature or HIGH utilization'')
      else if gpu_temp < GPU_TEMP_LOW \<and> cpu_temp < CPU_TEMP_LOW \<and> gpu_util < UTIL_LOW
      then (FAN_DEFAULT, ''LOW temperatures and utilization'')
      else (current_speed self, ''maintaining current level''))"

section \<open>The control loop\<close>

text \<open>
  \<open>check_commands\<close> runs \<open>which\<close> directly (not through \<open>run_command\<close>) and leaves with
  \<open>sys.exit(1)\<close> on the first command that is missing.
\<close>

fun check_loop :: "env \<Rightarrow> string list \<Rightarrow> state \<Rightarrow> unit res" where
  "check_loop e [] st = Inr ((), st)"
| "check_loop e (cmd # rest) st =
     (case subprocess_run e (''which '' @ cmd) st of
        Inr (out, st') \<Rightarrow> check_loop e rest st'
      | Inl (x, st') \<Rightarrow>
          if x = CalledProcessError
          then seq (logger e ERROR (RequiredNotInstalled cmd)) (\<lambda>u1.
               seq (if cmd = ''ipmitool''
                    then logger e ERROR (InstallHint ''Install with: sudo apt-get install ipmitool'')
                    else if cmd = ''nvidia-smi''
                    then logger e ERROR (InstallHint ''Install NVIDIA drivers'')
                    else ret ()) (\<lambda>u2 s.
               Inl (SystemExit 1, s))) st'
          else Inl (x, st'))"

definition check_commands :: "env \<Rightarrow> state \<Rightarrow> unit res" where
  "check_commands e = check_loop e [''ipmitool'', ''nvidia-smi'']"

text \<open>\<open>time.sleep\<close> is the other blocking call.\<close>

definition time_sleep :: "env \<Rightarrow> int \<Rightarrow> state \<Rightarrow> unit res" where
  "time_sleep e secs st =
     (let st' = note_call (Sleep secs) st
      in if events st' \<in> set (signals e) then Inl (handler e st') else Inr ((), st'))"

text \<open>The body of \<open>while True\<close>.\<close>

definition cycle :: "env \<Rightarrow> state \<Rightarrow> unit res" where
  "cycle e =
     seq (get_gpu_data e) (\<lambda>(gpu_temp, gpu_util).
     seq (get_cpu_temp e) (\<lambda>cpu_temp.
     seq (logger e INFO (SystemTemperatures gpu_temp cpu_temp gpu_util)) (\<lambda>u1 st.
     (case determine_fan_speed st gpu_temp cpu_temp gpu_util of
        (new_speed, reason) \<Rightarrow>
          seq (if new_speed \<noteq> current_speed st then set_fan_speed e new_speed reason
               else ret ())
              (\<lambda>u2. time_sleep e INTERVAL) st))))"

text \<open>
  \<open>while True\<close> never ends by itself. \<open>loop e n\<close> follows it for \<open>n\<close> iterations: \<open>None\<close>
  when it is still iterating after them, otherwise the exception that left it.
\<close>

fun loop :: "env \<Rightarrow> nat \<Rightarrow> state \<Rightarrow> (py_exc \<times> state) option" where
  "loop e 0 st = None"
| "loop e (Suc n) st =
     (case cycle e st of
        Inr (u, st') \<Rightarrow> loop e n st'
      | Inl r \<Rightarrow> Some r)"

text \<open>
  \<open>run\<close>: the start-up steps are outside the \<open>try\<close>; the two handlers around the loop
  call \<open>cleanup\<close>. \<open>None\<close>: still in the loop after \<open>n\<close> iterations. The signal handlers
  are installed before \<open>run\<close> is called, so a signal may be handled before the first event.
\<close>

definition run :: "env \<Rightarrow> nat \<Rightarrow> state \<Rightarrow> unit res option" where
  "run e n st =
     (if events st \<in> set (signals e) then Some (Inl (handler e st))
      else (case check_commands e st of
              Inl r \<Rightarrow> Some (Inl r)
            | Inr (u1, st1) \<Rightarrow>
                (case seq (logger e INFO Starting) (\<lambda>u s.
                        set_fan_speed e (current_speed s) ''initial setting'' s) st1 of
                   Inl r \<Rightarrow> Some (Inl r)
                 | Inr (u2, st2) \<Rightarrow>
                     (case loop e n st2 of
                        None \<Rightarrow> None
                      | Some (x, st3) \<Rightarrow>
                          if x = KeyboardInterrupt then Some (cleanup e st3)
                          else if is_Exception x
                          then Some (seq (logger e ERROR (UnexpectedError x))
                                       (\<lambda>u. cleanup e) st3)
                          else Some (Inl (x, st3))))))"

text \<open>The controller as \<open>__init__\<close> leaves it.\<close>

definition init :: state where
  "init = \<lparr>current_speed = FAN_DEFAULT, logged = [], calls = []\<rparr>"

section \<open>Counting restore commands\<close>

text \<open>
  \<open>restores\<close> counts the restore commands in a sequence of calls; \<open>restore_auto_fan\<close>
  issues one, first thing, each time it is invoked. The shutdown begins when \<open>cleanup\<close> is
  entered for the first time: its first statement writes the record "Caught signal" and
  the first call it makes is the restore command. \<open>shutdown_begins l d\<close> is the number of
  events among the records \<open>l\<close> and the calls \<open>d\<close> that come before that moment: the records
  before the first "Caught signal" and the calls before the first restore command.
\<close>

definition restores :: "call list \<Rightarrow> nat" where
  "restores d = length (filter (\<lambda>c. c = Run auto_cmd) d)"


text \<open>
  The commands that address the fan hardware are the \<open>ipmitool\<close> invocations.
\<close>

fun is_actuator :: "call \<Rightarrow> bool" where
  "is_actuator (Run c) = (take 9 c = ''ipmitool '')"
| "is_actuator (Sleep secs) = False"

section \<open>Signals during a step\<close>

text \<open>
  \<open>undisturbed e st n\<close>: no signal is handled during the next \<open>n\<close> events after \<open>st\<close>.
  \<open>pending e st\<close>: the number of signals still to come after \<open>st\<close>.
\<close>

definition undisturbed :: "env \<Rightarrow> state \<Rightarrow> nat \<Rightarrow> bool" where
  "undisturbed e st n = (\<forall>k \<in> set (signals e). k \<le> events st \<or> events st + n < k)"

definition pending :: "env \<Rightarrow> state \<Rightarrow> nat" where
  "pending e st = length (filter (\<lambda>j. events st < j) (signals e))"

text \<open>
  \<open>passed e st st'\<close>: the program has gone from \<open>st\<close> to \<open>st'\<close> and no signal was to be
  handled on the way. \<open>passes\<close>: a step that returns, or raises an \<open>Exception\<close>, has
  passed; every event of the program is followed by the check for a signal.
\<close>

definition passed :: "env \<Rightarrow> state \<Rightarrow> state \<Rightarrow> bool" where
  "passed e st st' =
     (events st \<le> events st' \<and> (\<forall>k \<in> set (signals e). k \<le> events st \<or> events st' < k))"

definition passes :: "env \<Rightarrow> state \<Rightarrow> 'a res \<Rightarrow> bool" where
  "passes e st r =
     (case r of Inr (v, st') \<Rightarrow> passed e st st'
              | Inl (x, st') \<Rightarrow> is_Exception x \<longrightarrow> passed e st st')"

section \<open>Invariants of the trace\<close>

text \<open>
  \<open>shut e st r\<close>: what a run \<open>r\<close> of the handler started in \<open>st\<close> leaves behind. It ends
  with \<open>SystemExit(0)\<close>, keeps \<open>current_speed\<close>, writes "Caught signal" first, and the calls
  it adds are restore commands, at least one, and exactly one when no signal is handled
  after \<open>st\<close>.
  \<open>calm st st'\<close>: from \<open>st\<close> to \<open>st'\<close> records and calls were only added, none of them a
  "Caught signal" and none a restore command: the shutdown has not begun.
  \<open>exited e st r\<close>: what holds of every exception \<open>r\<close> that a step started in \<open>st\<close> raises:
  it is an \<open>Exception\<close> raised before the shutdown has begun, or the end of a run of the
  handler that started before the shutdown had begun. \<open>steady\<close> joins the two for the
  result of a step.
\<close>

definition shut :: "env \<Rightarrow> state \<Rightarrow> py_exc \<times> state \<Rightarrow> bool" where
  "shut e st r =
     (fst r = SystemExit 0 \<and> current_speed (snd r) = current_speed st \<and>
      (\<exists>l. logged (snd r) = logged st @ (INFO, CaughtSignal) # l) \<and>
      (\<exists>d. calls (snd r) = calls st @ d \<and> set d \<subseteq> {Run auto_cmd} \<and> d \<noteq> [] \<and>
           ((\<forall>k \<in> set (signals e). k \<le> events st) \<longrightarrow> d = [Run auto_cmd])))"

definition calm :: "state \<Rightarrow> state \<Rightarrow> bool" where
  "calm st st' =
     (\<exists>l d. logged st' = logged st @ l \<and> calls st' = calls st @ d \<and>
            (INFO, CaughtSignal) \<notin> set l \<and> Run auto_cmd \<notin> set d)"

definition exited :: "env \<Rightarrow> state \<Rightarrow> py_exc \<times> state \<Rightarrow> bool" where
  "exited e st r =
     (is_Exception (fst r) \<and> calm st (snd r) \<or> (\<exists>s0. calm st s0 \<and> r = handler e s0))"

definition steady :: "env \<Rightarrow> state \<Rightarrow> 'a res \<Rightarrow> bool" where
  "steady e st r = (case r of Inr (v, st') \<Rightarrow> calm st st' | Inl x \<Rightarrow> exited e st x)"

section \<open>The CPU temperature, as specified\<close>

text \<open>
  The reference for \<open>get_cpu_temp\<close>. \<open>zone_celsius\<close> lists the readings of the readable
  thermal zones, converted from millidegrees. \<open>package_line\<close> selects the lines of
  \<open>sensors\<close> that name a package and carry a degree marker.
\<close>

definition zone_celsius :: "env \<Rightarrow> zone_read list \<Rightarrow> int list" where
  "zone_celsius e zs =
     List.map_filter (\<lambda>z. case read_zone e z of Inr m \<Rightarrow> Some (m div 1000) | Inl x \<Rightarrow> None) zs"

definition package_line :: "string \<Rightarrow> bool" where
  "package_line line = (py_in ''Package id'' line \<and> py_in degC line)"

text \<open>
  The temperature a line shows is the signed decimal number that stands in front of its
  first degree marker. \<open>before_marker\<close> is the text up to that marker, \<open>magnitude\<close> the
  digits and decimal point it ends with, \<open>lead\<close> what precedes them. \<open>shown_temp\<close> converts
  the magnitude as \<open>int(float(...))\<close> does, which rounds towards zero, and negates it under
  a minus sign. None of this is taken from the loop of \<open>get_cpu_temp\<close>, which cuts the
  line at its first \<open>+\<close> instead; \<open>plus_signed\<close> says when the two must agree: the
  number is written with a plus sign, no other \<open>+\<close> comes earlier in the line, and the
  conversion accepts the magnitude. \<open>package_temps\<close> lists the temperatures shown by the
  package lines.
\<close>

fun before_marker :: "string \<Rightarrow> string" where
  "before_marker [] = []"
| "before_marker (c # cs) = (if take 2 (c # cs) = degC then [] else c # before_marker cs)"

definition decimal_char :: "char \<Rightarrow> bool" where
  "decimal_char c = (c \<in> set ''0123456789.'')"

definition magnitude :: "string \<Rightarrow> string" where
  "magnitude s = rev (takeWhile decimal_char (rev s))"

definition lead :: "string \<Rightarrow> string" where
  "lead s = rev (dropWhile decimal_char (rev s))"

definition shown_temp :: "env \<Rightarrow> string \<Rightarrow> int option" where
  "shown_temp e line =
     (let b = before_marker line; v = py_float_int e (magnitude b)
      in if lead b \<noteq> [] \<and> last (lead b) = CHR ''-'' then map_option uminus v else v)"


definition package_temps :: "env \<Rightarrow> string list \<Rightarrow> int list" where
  "package_temps e ls = List.map_filter (shown_temp e) (filter package_line ls)"

section \<open>Sample machines\<close>

text \<open>
  Concrete environments on which the model is run. The two conversions read plain decimal
  notation, which is what the thermal zones, \<open>nvidia-smi\<close> and \<open>sensors\<close> print:
  an optional sign and digits for \<open>int\<close>, and for \<open>int(float(s))\<close> the integer part of
  digits, a point and digits.
\<close>

fun decimal_digits :: "string \<Rightarrow> int \<Rightarrow> int option" where
  "decimal_digits [] acc = Some acc"
| "decimal_digits (c # cs) acc =
     (if c \<in> set ''0123456789'' then decimal_digits cs (10 * acc + (of_char c - 48)) else None)"

definition decimal_int :: "string \<Rightarrow> int option" where
  "decimal_int s =
     (case s of
        [] \<Rightarrow> None
      | c # cs \<Rightarrow>
          if c = CHR ''-'' then (if cs = [] then None else map_option uminus (decimal_digits cs 0))
          else if c = CHR ''+'' then (if cs = [] then None else decimal_digits cs 0)
          else decimal_digits s 0)"

definition decimal_float_int :: "string \<Rightarrow> int option" where
  "decimal_float_int s =
     (case py_split s ''.'' of
        [a] \<Rightarrow> decimal_int a
      | [a, b] \<Rightarrow> if b \<noteq> [] \<and> decimal_digits b 0 \<noteq> None then decimal_int a else None
      | ps \<Rightarrow> None)"

text \<open>
  \<open>host gpu_out sensors_out zs sigs\<close>: every command succeeds, \<open>nvidia-smi\<close> and \<open>sensors\<close>
  print the given texts, the thermal zones read as \<open>zs\<close>, and a signal is handled at each
  of the event counts in \<open>sigs\<close>. \<open>bmc_down\<close>: every \<open>ipmitool\<close> command exits with a
  non-zero status. \<open>broken_sensors\<close>: no thermal zone can be read, \<open>nvidia-smi\<close> exits
  non-zero and nothing else can be started. \<open>cold_text\<close>: a package below zero;
  \<open>cold_limit_text\<close>: the same with its limit on the line, as \<open>sensors\<close> prints it;
  \<open>cold_then_warm_text\<close>: a package below zero followed by a warm one.
\<close>

definition gpu_text :: string where
  "gpu_text = ''45, 10'' @ newline @ ''52, 35'' @ newline"

definition sensors_text :: string where
  "sensors_text =
     ''coretemp-isa-0000'' @ newline @
     ''Package id 0:  +45.0'' @ degC @ ''  (high = +80.0'' @ degC @ '')'' @ newline @
     ''Core 0:        +41.0'' @ degC @ newline"

definition cold_text :: string where
  "cold_text = ''Package id 0:  -5.0'' @ degC @ newline"



definition host :: "string \<Rightarrow> string \<Rightarrow> zone_read list \<Rightarrow> nat list \<Rightarrow> env" where
  "host gpu_out sensors_out zs sigs =
     \<lparr>proc = (\<lambda>k c. if c = nvidia_cmd then Exit0 gpu_out
                    else if c = sensors_cmd then Exit0 sensors_out
                    else Exit0 []),
      zones = (\<lambda>k. zs),
      signals = sigs,
      py_int = decimal_int,
      py_float_int = decimal_float_int\<rparr>"

definition bmc_down :: env where
  "bmc_down =
     (host [] [] [] [])\<lparr>proc := (\<lambda>k c. if take 9 c = ''ipmitool '' then NonZero else Exit0 [])\<rparr>"


section \<open>Events and the handler\<close>

lemma events_log [simp]: "events (log_to lv m st) = Suc (events st)"
  by (simp add: events_def log_to_def)

lemma events_call [simp]: "events (note_call c st) = Suc (events st)"
  by (simp add: events_def note_call_def)

lemma calls_log [simp]: "calls (log_to lv m st) = calls st"
  by (simp add: log_to_def)

lemma logged_log [simp]: "logged (log_to lv m st) = logged st @ [(lv, m)]"
  by (simp add: log_to_def)

lemma speed_log [simp]: "current_speed (log_to lv m st) = current_speed st"
  by (simp add: log_to_def)

lemma calls_call [simp]: "calls (note_call c st) = calls st @ [c]"
  by (simp add: note_call_def)

lemma logged_call [simp]: "logged (note_call c st) = logged st"
  by (simp add: note_call_def)

lemma speed_call [simp]: "current_speed (note_call c st) = current_speed st"
  by (simp add: note_call_def)

lemma pending_less:
  "k \<in> set (signals e) \<Longrightarrow> events st < k \<Longrightarrow> events st' = k \<Longrightarrow>
   pending e st' < pending e st"
  by (simp add: pending_def later_signals_fewer)

lemma shut_nested:
  assumes "shut e s' r" and "k \<in> set (signals e)" and "events st < k"
    and "logged s' = logged st @ (INFO, CaughtSignal) # l0"
    and "calls s' = calls st @ d0" and "set d0 \<subseteq> {Run auto_cmd}"
    and "current_speed s' = current_speed st"
  shows "shut e st r"
proof -
  from assms(1) obtain l d where
    x: "fst r = SystemExit 0" and sp: "current_speed (snd r) = current_speed s'"
    and l: "logged (snd r) = logged s' @ (INFO, CaughtSignal) # l"
    and d: "calls (snd r) = calls s' @ d" "set d \<subseteq> {Run auto_cmd}" "d \<noteq> []"
    by (auto simp: shut_def)
  have n: "\<not> (\<forall>k \<in> set (signals e). k \<le> events st)" using assms(2,3) by (auto simp: not_le)
  have c: "calls (snd r) = calls st @ (d0 @ d)" using d(1) assms(5) by simp
  have s: "set (d0 @ d) \<subseteq> {Run auto_cmd}" "d0 @ d \<noteq> []" using d assms(6) by auto
  have g: "logged (snd r) = logged st @ (INFO, CaughtSignal) # (l0 @ (INFO, CaughtSignal) # l)"
    using l assms(4) by simp
  show ?thesis unfolding shut_def
  proof (intro conjI)
    show "fst r = SystemExit 0" by (rule x)
    show "current_speed (snd r) = current_speed st" using sp assms(7) by simp
    show "\<exists>l. logged (snd r) = logged st @ (INFO, CaughtSignal) # l" using g by blast
    show "\<exists>d. calls (snd r) = calls st @ d \<and> set d \<subseteq> {Run auto_cmd} \<and> d \<noteq> [] \<and>
           ((\<forall>k \<in> set (signals e). k \<le> events st) \<longrightarrow> d = [Run auto_cmd])"
      using c s n by (intro exI [of _ "d0 @ d"]) auto
  qed
qed

text \<open>
  Every run of the handler ends, and ends as \<open>shut\<close> says.
\<close>

lemma handler_shuts: "shut e st (handler e st)"
proof (induction "pending e st" arbitrary: st rule: less_induct)
  case less
  let ?s1 = "log_to INFO CaughtSignal st"
  let ?s2 = "note_call (Run auto_cmd) ?s1"
  have IH: "shut e st (handler e s')"
    if "k \<in> set (signals e)" "events st < k" "events s' = k"
       "logged s' = logged st @ (INFO, CaughtSignal) # l0"
       "calls s' = calls st @ d0" "set d0 \<subseteq> {Run auto_cmd}"
       "current_speed s' = current_speed st" for s' k l0 d0
  proof -
    have "shut e s' (handler e s')" using less pending_less [OF that(1,2,3)] by blast
    then show ?thesis using that(1,2,4,5,6,7) by (rule shut_nested)
  qed
  let ?S = "set (signals e)"
  let ?n = "events st"
  consider (a) "Suc ?n \<in> ?S" | (b) "Suc ?n \<notin> ?S" "Suc (Suc ?n) \<in> ?S"
    | (c) "Suc ?n \<notin> ?S" "Suc (Suc ?n) \<notin> ?S" "Suc (Suc (Suc ?n)) \<in> ?S"
    | (d) "Suc ?n \<notin> ?S" "Suc (Suc ?n) \<notin> ?S" "Suc (Suc (Suc ?n)) \<notin> ?S"
    by blast
  then show ?case
  proof cases
    case a
    have "handler e st = handler e ?s1"
      using a by (subst handler.simps) (simp add: Let_def)
    moreover have "shut e st (handler e ?s1)"
      using a by (intro IH [of "Suc ?n" _ "[]" "[]"]) simp_all
    ultimately show ?thesis by simp
  next
    case b
    have "handler e st = handler e ?s2"
      using b by (subst handler.simps) (simp add: Let_def)
    moreover have "shut e st (handler e ?s2)"
      using b by (intro IH [of "Suc (Suc ?n)" _ "[]" "[Run auto_cmd]"]) simp_all
    ultimately show ?thesis by simp
  next
    case c
    have "\<exists>s3 l0. handler e st = handler e s3 \<and> events s3 = Suc (Suc (Suc ?n)) \<and>
            logged s3 = logged st @ (INFO, CaughtSignal) # l0 \<and>
            calls s3 = calls st @ [Run auto_cmd] \<and> current_speed s3 = current_speed st"
      using c
      apply (subst handler.simps)
      apply (simp add: Let_def split: proc_result.splits)
      apply (intro conjI impI)
        apply (rule exI, rule conjI, rule refl, simp)+
      done
    then obtain s3 l0 where h: "handler e st = handler e s3" "events s3 = Suc (Suc (Suc ?n))"
      "logged s3 = logged st @ (INFO, CaughtSignal) # l0"
      "calls s3 = calls st @ [Run auto_cmd]" "current_speed s3 = current_speed st"
      by blast
    have "shut e st (handler e s3)"
      using c h by (intro IH [of "Suc (Suc (Suc ?n))" _ l0 "[Run auto_cmd]"]) simp_all
    then show ?thesis using h(1) by simp
  next
    case d
    show ?thesis
    proof (cases "proc e (length (calls st)) auto_cmd")
      case (Exit0 out)
      have "handler e st = (SystemExit 0, log_to INFO RestoredAutomatic ?s2)"
        using d Exit0 by (subst handler.simps) (simp add: Let_def)
      then show ?thesis using d by (auto simp: shut_def)
    next
      case SpawnError
      have "handler e st = (SystemExit 0, log_to ERROR (FailedToRestore OSError) ?s2)"
        using d SpawnError by (subst handler.simps) (simp add: Let_def)
      then show ?thesis using d by (auto simp: shut_def)
    next
      case NonZero
      let ?s3 = "log_to ERROR (CommandFailed auto_cmd) ?s2"
      let ?s4 = "log_to ERROR (ErrorIs CalledProcessError) ?s3"
      let ?s5 = "log_to INFO RestoredAutomatic ?s4"
      consider (x) "Suc (Suc (Suc (Suc ?n))) \<in> ?S"
        | (y) "Suc (Suc (Suc (Suc ?n))) \<notin> ?S" "Suc (Suc (Suc (Suc (Suc ?n)))) \<in> ?S"
        | (z) "Suc (Suc (Suc (Suc ?n))) \<notin> ?S" "Suc (Suc (Suc (Suc (Suc ?n)))) \<notin> ?S"
        by blast
      then show ?thesis
      proof cases
        case x
        have "handler e st = handler e ?s4"
          using d NonZero x by (subst handler.simps) (simp add: Let_def)
        moreover have "shut e st (handler e ?s4)"
          using x by (intro IH [of "Suc (Suc (Suc (Suc ?n)))" _ _ "[Run auto_cmd]"]) simp_all
        ultimately show ?thesis by simp
      next
        case y
        have "handler e st = handler e ?s5"
          using d NonZero y by (subst handler.simps) (simp add: Let_def)
        moreover have "shut e st (handler e ?s5)"
          using y by (intro IH [of "Suc (Suc (Suc (Suc (Suc ?n))))" _ _ "[Run auto_cmd]"]) simp_all
        ultimately show ?thesis by simp
      next
        case z
        have "handler e st = (SystemExit 0, ?s5)"
          using d NonZero z by (subst handler.simps) (simp add: Let_def)
        then show ?thesis using d by (auto simp: shut_def)
      qed
    qed
  qed
qed

lemma handler_fst [simp]: "fst (handler e st) = SystemExit 0"
  using handler_shuts [of e st] by (simp add: shut_def)

lemma handler_case [simp]:
  "(case handler e st of (x, s) \<Rightarrow> f x s) = f (SystemExit 0) (snd (handler e st))"
  using handler_fst [of e st] by (cases "handler e st") simp

lemma handler_eq: "handler e st = (SystemExit 0, snd (handler e st))"
  using handler_fst [of e st] by (cases "handler e st") simp

lemma handler_pair [simp]: "(SystemExit 0, snd (handler e st)) = handler e st"
  using handler_eq [of e st] by simp


lemma logger_quiet:
  "Suc (events st) \<notin> set (signals e) \<Longrightarrow> logger e lv m st = Inr ((), log_to lv m st)"
  by (simp add: logger_def)


lemma subprocess_run_quiet:
  "Suc (events st) \<notin> set (signals e) \<Longrightarrow>
   subprocess_run e c st = finish e (length (calls st)) c (note_call (Run c) st)"
  by (simp add: subprocess_run_def)


lemma undisturbed_0 [simp]: "undisturbed e st 0"
  by (auto simp: undisturbed_def)

lemma undisturbed_Suc:
  "undisturbed e st (Suc n) \<longleftrightarrow> undisturbed e st n \<and> events st + Suc n \<notin> set (signals e)"
proof
  assume u: "undisturbed e st (Suc n)"
  then have "events st + Suc n \<notin> set (signals e)" by (fastforce simp: undisturbed_def)
  moreover have "undisturbed e st n" using u by (fastforce simp: undisturbed_def)
  ultimately show "undisturbed e st n \<and> events st + Suc n \<notin> set (signals e)" by simp
next
  assume u: "undisturbed e st n \<and> events st + Suc n \<notin> set (signals e)"
  show "undisturbed e st (Suc n)"
    unfolding undisturbed_def
  proof
    fix k assume k: "k \<in> set (signals e)"
    then have "k \<le> events st \<or> events st + n < k" using u by (simp add: undisturbed_def)
    moreover have "k \<noteq> events st + Suc n" using u k by auto
    ultimately show "k \<le> events st \<or> events st + Suc n < k" by linarith
  qed
qed

lemma undisturbed_less: "undisturbed e st n \<Longrightarrow> m \<le> n \<Longrightarrow> undisturbed e st m"
  by (fastforce simp: undisturbed_def)

section \<open>The invariant, step by step\<close>


lemma calm_log [simp]:
  "calm st st' \<Longrightarrow> (lv, m) \<noteq> (INFO, CaughtSignal) \<Longrightarrow> calm st (log_to lv m st')"
  by (auto simp: calm_def)

lemma calm_call [simp]: "calm st st' \<Longrightarrow> c \<noteq> Run auto_cmd \<Longrightarrow> calm st (note_call c st')"
  by (auto simp: calm_def)

lemma calm_speed [simp]: "calm st (st'\<lparr>current_speed := v\<rparr>) = calm st st'"
  by (simp add: calm_def)


lemma steady_Inr [simp]: "steady e st (Inr (v, st')) = calm st st'"
  by (simp add: steady_def)

lemma steady_Inl [simp]: "steady e st (Inl r) = exited e st r"
  by (simp add: steady_def)














section \<open>The invariant holds of every step of the program\<close>

lemma commands_differ [simp]:
  "manual_cmd \<noteq> auto_cmd" "speed_cmd s \<noteq> auto_cmd" "nvidia_cmd \<noteq> auto_cmd"
  "sensors_cmd \<noteq> auto_cmd" "''which '' @ cmd \<noteq> auto_cmd"
  by (simp_all add: manual_cmd_def speed_cmd_def nvidia_cmd_def sensors_cmd_def auto_cmd_def)












section \<open>Termination\<close>

lemma restores_append [simp]: "restores (xs @ ys) = restores xs + restores ys"
  by (simp add: restores_def)



declare check_loop.simps [simp del]




lemma handler_not_Exception:
  "(x, s) = handler e s0 \<Longrightarrow> \<not> is_Exception x"
  "handler e s0 = (x, s) \<Longrightarrow> \<not> is_Exception x"
  by (auto dest!: arg_cong [where f = fst])







section \<open>Failures of commands\<close>

lemma logger_Inr: "logger e lv m st = Inr (u, st') \<Longrightarrow> st' = log_to lv m st"
  by (auto simp: logger_def Let_def split: if_splits)

lemma run_command_Exit0:
  "Suc (events st) \<notin> set (signals e) \<Longrightarrow> proc e (length (calls st)) c = Exit0 out \<Longrightarrow>
   run_command e c cap st
   = Inr (if cap then Some (py_strip out) else None, note_call (Run c) st)"
  by (simp add: run_command_def subprocess_run_quiet finish_def)

lemma run_command_NonZero:
  "undisturbed e st 3 \<Longrightarrow> proc e (length (calls st)) c = NonZero \<Longrightarrow>
   run_command e c cap st
   = Inr (None, log_to ERROR (ErrorIs CalledProcessError)
                  (log_to ERROR (CommandFailed c) (note_call (Run c) st)))"
  by (simp add: run_command_def subprocess_run_quiet finish_def seq_def logger_quiet ret_def
        eval_nat_numeral undisturbed_Suc)


lemma run_command_Inr:
  "run_command e c cap st = Inr (r, st') \<Longrightarrow>
   calls st' = calls st @ [Run c] \<and> current_speed st' = current_speed st
   \<and> (r \<noteq> None \<longrightarrow> cap \<and> logged st' = logged st
        \<and> (\<exists>out. proc e (length (calls st)) c = Exit0 out \<and> r = Some (py_strip out)))"
  by (auto simp: run_command_def subprocess_run_def finish_def seq_def logger_def ret_def Let_def
           split: if_splits proc_result.splits sum.splits)

lemma run_command_Inl_Exception:
  "run_command e c cap st = Inl (x, st') \<Longrightarrow> is_Exception x \<Longrightarrow>
   x = OSError \<and> st' = note_call (Run c) st"
  by (auto simp: run_command_def subprocess_run_def finish_def seq_def logger_def ret_def Let_def
           split: if_splits proc_result.splits sum.splits dest: handler_not_Exception)

lemma undisturbed_1: "undisturbed e st n \<Longrightarrow> 1 \<le> n \<Longrightarrow> Suc (events st) \<notin> set (signals e)"
  by (fastforce simp: undisturbed_def)


lemma undisturbed_3:
  "undisturbed e st n \<Longrightarrow> 3 \<le> n \<Longrightarrow> Suc (Suc (Suc (events st))) \<notin> set (signals e)"
  by (fastforce simp: undisturbed_def)

text \<open>
  C10. \<open>run_command\<close> does not pass the failure of the command on to its caller. When the
  child exits with a non-zero status, and no termination signal is handled during the
  call or while the failure is logged, \<open>run_command\<close> returns \<open>None\<close>; the log has grown by
  exactly the two records "Command failed: ..." and "Error: ...", the call is recorded
  and nothing else has changed. When the child exits with status 0 and \<open>capture_output\<close>
  is set, it returns the stripped standard output and logs nothing.
\<close>

theorem failed_command_is_swallowed:
  assumes "undisturbed e st 3"
  shows "(proc e (length (calls st)) c = NonZero \<longrightarrow>
           run_command e c cap st
           = Inr (None, \<lparr>current_speed = current_speed st,
                         logged = logged st @ [(ERROR, CommandFailed c),
                                               (ERROR, ErrorIs CalledProcessError)],
                         calls = calls st @ [Run c]\<rparr>))
       \<and> (proc e (length (calls st)) c = Exit0 out \<longrightarrow>
           run_command e c True st
           = Inr (Some (py_strip out), \<lparr>current_speed = current_speed st,
                                         logged = logged st,
                                         calls = calls st @ [Run c]\<rparr>))"
  using assms undisturbed_1 [OF assms]
  by (simp add: run_command_NonZero run_command_Exit0 log_to_def note_call_def)

text \<open>
  Both cases at a concrete input: \<open>ipmitool\<close> rejected by the BMC, and \<open>nvidia-smi\<close>
  printing two rows.
\<close>

theorem failed_command_is_swallowed_witness:
  "run_command bmc_down manual_cmd False init
   = Inr (None, \<lparr>current_speed = FAN_DEFAULT,
                 logged = [(ERROR, CommandFailed manual_cmd), (ERROR, ErrorIs CalledProcessError)],
                 calls = [Run manual_cmd]\<rparr>)
   \<and> run_command (host gpu_text sensors_text [] []) nvidia_cmd True init
     = Inr (Some (''45, 10'' @ newline @ ''52, 35''),
            \<lparr>current_speed = FAN_DEFAULT, logged = [], calls = [Run nvidia_cmd]\<rparr>)"
proof -
  have q1: "undisturbed bmc_down init 3" by code_simp
  have p1: "proc bmc_down (length (calls init)) manual_cmd = NonZero" by code_simp
  have q2: "undisturbed (host gpu_text sensors_text [] []) init 3" by code_simp
  have p2: "proc (host gpu_text sensors_text [] []) (length (calls init)) nvidia_cmd
            = Exit0 gpu_text" by code_simp
  have s: "py_strip gpu_text = ''45, 10'' @ newline @ ''52, 35''" by code_simp
  show ?thesis
    using failed_command_is_swallowed [OF q1, of manual_cmd False] p1
      failed_command_is_swallowed [OF q2, of nvidia_cmd False gpu_text] p2 s
    by (simp add: init_def)
qed

section \<open>The sensors\<close>

lemma zone_loop_lower: "zone_loop e zs m = Inr t \<Longrightarrow> m \<le> t"
  by (induction e zs m arbitrary: t rule: zone_loop.induct)
     (fastforce simp: Let_def split: sum.splits if_splits)+

lemma package_loop_lower: "package_loop e ls m = (t, x) \<Longrightarrow> m \<le> t"
  by (induction e ls m arbitrary: t x rule: package_loop.induct)
     (fastforce split: list.splits option.splits if_splits)+

lemma gpu_loop_lower: "gpu_loop e ls a b = Inr (t, u) \<Longrightarrow> a \<le> t \<and> b \<le> u"
  by (induction e ls a b arbitrary: t u rule: gpu_loop.induct)
     (fastforce split: list.splits option.splits if_splits)+


lemma get_gpu_data_Inr:
  "get_gpu_data e st = Inr (r, st') \<Longrightarrow>
   calls st' = calls st @ [Run nvidia_cmd] \<and> current_speed st' = current_speed st"
  by (auto simp: get_gpu_data_def except_Exception_def seq_def ret_def lift_def
           split: sum.splits if_splits option.splits
           dest!: run_command_Inr run_command_Inl_Exception logger_Inr)



lemma get_cpu_temp_Inr:
  "get_cpu_temp e st = Inr (t, st') \<Longrightarrow>
   current_speed st' = current_speed st
   \<and> (calls st' = calls st \<or> calls st' = calls st @ [Run sensors_cmd])"
  by (auto simp: get_cpu_temp_def seq_def ret_def
           split: sum.splits if_splits option.splits prod.splits
           dest!: run_command_Inr run_command_Inl_Exception logger_Inr)

text \<open>
  C9. Telemetry is never negative, whatever the environment does: a value returned by
  \<open>get_cpu_temp\<close> is at least 0, and so are both values of a pair returned by
  \<open>get_gpu_data\<close>.
\<close>

theorem telemetry_never_negative:
  "(get_cpu_temp e st = Inr (t, st') \<longrightarrow> 0 \<le> t)
   \<and> (get_gpu_data e st = Inr ((gt, gu), st'') \<longrightarrow> 0 \<le> gt \<and> 0 \<le> gu)"
proof -
  have cpu: "0 \<le> t" if "get_cpu_temp e st = Inr (t, st')"
    using that
    by (auto simp: get_cpu_temp_def seq_def ret_def
             split: sum.splits if_splits option.splits prod.splits
             dest: zone_loop_lower package_loop_lower)
  have gpu: "0 \<le> gt \<and> 0 \<le> gu" if a: "get_gpu_data e st = Inr ((gt, gu), st'')"
    using that
    by (auto simp: get_gpu_data_def except_Exception_def seq_def ret_def lift_def
             split: sum.splits if_splits option.splits
             dest: gpu_loop_lower)
  show ?thesis using cpu gpu by blast
qed

text \<open>
  Sensors that report temperatures below zero: a thermal zone at -5000 millidegrees with
  a package at -5.0 degrees, and a GPU row \<open>-3, -1\<close>. The values returned are 0.
\<close>

theorem telemetry_never_negative_witness:
  "get_cpu_temp (host gpu_text cold_text [Content ''-5000''] []) init
   = Inr (0, \<lparr>current_speed = FAN_DEFAULT,
               logged = [(WARNING, FailedCpuSensors IndexError)],
               calls = [Run sensors_cmd]\<rparr>)
   \<and> get_gpu_data (host (''-3, -1'' @ newline) cold_text [] []) init
     = Inr ((0, 0), \<lparr>current_speed = FAN_DEFAULT, logged = [], calls = [Run nvidia_cmd]\<rparr>)
   \<and> (0::int) \<le> 0"
proof -
  have a: "get_cpu_temp (host gpu_text cold_text [Content ''-5000''] []) init
   = Inr (0, \<lparr>current_speed = FAN_DEFAULT,
               logged = [(WARNING, FailedCpuSensors IndexError)],
               calls = [Run sensors_cmd]\<rparr>)" by code_simp
  have b: "get_gpu_data (host (''-3, -1'' @ newline) cold_text [] []) init
     = Inr ((0, 0), \<lparr>current_speed = FAN_DEFAULT, logged = [], calls = [Run nvidia_cmd]\<rparr>)"
    by code_simp
  have "(0::int) \<le> 0" using telemetry_never_negative a by blast
  then show ?thesis using a b by blast
qed

section \<open>The temperature a line shows, and the one the loop reads\<close>













section \<open>The maxima\<close>



lemma zone_celsius_Nil [simp]: "zone_celsius e [] = []"
  by (simp add: zone_celsius_def map_filter_simps)




lemma package_temps_Nil [simp]: "package_temps e [] = []"
  by (simp add: package_temps_def map_filter_simps)








section \<open>One cycle of the loop\<close>

lemma time_sleep_Inr:
  "time_sleep e secs st = Inr (u, st') \<Longrightarrow> st' = note_call (Sleep secs) st"
  by (auto simp: time_sleep_def Let_def split: if_splits sum.splits)

lemma logger_Inl: "logger e lv m st = Inl (x, st') \<Longrightarrow> \<not> is_Exception x"
  by (auto simp: logger_def Let_def split: if_splits dest: handler_not_Exception)

lemma run_command_calls:
  "run_command e c cap st = Inr (r, st') \<Longrightarrow>
   calls st' = calls st @ [Run c] \<and> current_speed st' = current_speed st"
  by (auto dest: run_command_Inr)

lemma set_fan_speed_Inr:
  "set_fan_speed e speed reason st = Inr (u, st') \<Longrightarrow>
   calls st' = calls st @ [Run manual_cmd]
   \<or> calls st' = calls st @ [Run manual_cmd, Run (speed_cmd speed)]"
  by (auto simp: set_fan_speed_def except_Exception_def seq_def
           split: sum.splits if_splits
           dest!: run_command_calls run_command_Inl_Exception logger_Inr logger_Inl)

lemma determine_fan_speed_log [simp]:
  "determine_fan_speed (log_to lv m st) = determine_fan_speed st"
  by (simp add: determine_fan_speed_def log_to_def fun_eq_iff)

text \<open>
  C5. In a cycle of the loop that completes: when the decided fan level equals the
  tracked level, no actuator command is issued and \<open>current_speed\<close> is unchanged; when it
  differs, a commit is attempted (the manual-mode command is the first actuator
  command of the cycle).
\<close>

theorem cycle_commits_only_on_change:
  assumes cyc: "cycle e st = Inr (u, st')"
    and gpu: "get_gpu_data e st = Inr ((gpu_temp, gpu_util), st1)"
    and cpu: "get_cpu_temp e st1 = Inr (cpu_temp, st2)"
  shows "(fst (determine_fan_speed st2 gpu_temp cpu_temp gpu_util) = current_speed st
            \<longrightarrow> filter is_actuator (calls st') = filter is_actuator (calls st)
                 \<and> current_speed st' = current_speed st)
       \<and> (fst (determine_fan_speed st2 gpu_temp cpu_temp gpu_util) \<noteq> current_speed st
            \<longrightarrow> (\<exists>rest. filter is_actuator (calls st')
                         = filter is_actuator (calls st) @ Run manual_cmd # rest))"
proof -
  obtain new_speed reason where d:
    "determine_fan_speed st2 gpu_temp cpu_temp gpu_util = (new_speed, reason)"
    by (cases "determine_fan_speed st2 gpu_temp cpu_temp gpu_util")
  let ?st3 = "log_to INFO (SystemTemperatures gpu_temp cpu_temp gpu_util) st2"
  have c1: "calls st1 = calls st @ [Run nvidia_cmd]" and s1: "current_speed st1 = current_speed st"
    using get_gpu_data_Inr [OF gpu] by auto
  have c2: "calls st2 = calls st1 \<or> calls st2 = calls st1 @ [Run sensors_cmd]"
    and s2: "current_speed st2 = current_speed st1"
    using get_cpu_temp_Inr [OF cpu] by auto
  have f2: "filter is_actuator (calls ?st3) = filter is_actuator (calls st)"
    using c1 c2 by (auto simp: nvidia_cmd_def sensors_cmd_def)
  have s3: "current_speed ?st3 = current_speed st" using s1 s2 by simp
  have lg: "logger e INFO (SystemTemperatures gpu_temp cpu_temp gpu_util) st2 = Inr ((), ?st3)"
    using cyc gpu cpu
    by (auto simp: cycle_def seq_def logger_def Let_def split: if_splits)
  have body: "seq (if new_speed \<noteq> current_speed st then set_fan_speed e new_speed reason
                    else ret ())
                (\<lambda>u2. time_sleep e INTERVAL) ?st3 = Inr (u, st')"
    using cyc gpu cpu d s3 lg by (simp add: cycle_def seq_def)
  show ?thesis
  proof (cases "new_speed = current_speed st")
    case True
    then have "time_sleep e INTERVAL ?st3 = Inr (u, st')"
      using body by (simp add: seq_def ret_def)
    then have "st' = note_call (Sleep INTERVAL) ?st3" by (rule time_sleep_Inr)
    then show ?thesis using True d f2 s3 by simp
  next
    case False
    then obtain u1 st4 where sf: "set_fan_speed e new_speed reason ?st3 = Inr (u1, st4)"
      and sl: "time_sleep e INTERVAL st4 = Inr (u, st')"
      using body by (auto simp: seq_def split: sum.splits)
    have "st' = note_call (Sleep INTERVAL) st4" using sl by (rule time_sleep_Inr)
    then show ?thesis using False d f2 set_fan_speed_Inr [OF sf]
      by (auto simp: manual_cmd_def speed_cmd_def)
  qed
qed

text \<open>
  A cycle in the dead zone issues no actuator command; a cycle with the GPU at 85 degrees
  commits \<open>FAN_MAX\<close>.
\<close>

theorem cycle_commits_only_on_change_witness:
  "cycle (host gpu_text sensors_text [Content ''42000''] []) init
   = Inr ((), \<lparr>current_speed = FAN_DEFAULT,
                logged = [(INFO, SystemTemperatures 52 42 35)],
                calls = [Run nvidia_cmd, Sleep INTERVAL]\<rparr>)
   \<and> cycle (host (''85, 10'' @ newline) sensors_text [Content ''42000''] []) init
     = Inr ((), \<lparr>current_speed = FAN_MAX,
                  logged = [(INFO, SystemTemperatures 85 42 10),
                            (INFO, FanSpeedSet FAN_MAX (snd (determine_fan_speed init 85 42 10)))],
                  calls = [Run nvidia_cmd, Run manual_cmd, Run (speed_cmd FAN_MAX),
                           Sleep INTERVAL]\<rparr>)
   \<and> (\<exists>rest. filter is_actuator [Run nvidia_cmd, Run manual_cmd, Run (speed_cmd FAN_MAX),
                                  Sleep INTERVAL] = Run manual_cmd # rest)"
proof -
  let ?e1 = "host gpu_text sensors_text [Content ''42000''] []"
  let ?e2 = "host (''85, 10'' @ newline) sensors_text [Content ''42000''] []"
  let ?s1 = "init\<lparr>calls := [Run nvidia_cmd]\<rparr>"
  let ?end1 = "\<lparr>current_speed = FAN_DEFAULT,
                logged = [(INFO, SystemTemperatures 52 42 35)],
                calls = [Run nvidia_cmd, Sleep INTERVAL]\<rparr>"
  let ?end2 = "\<lparr>current_speed = FAN_MAX,
                  logged = [(INFO, SystemTemperatures 85 42 10),
                            (INFO, FanSpeedSet FAN_MAX (snd (determine_fan_speed init 85 42 10)))],
                  calls = [Run nvidia_cmd, Run manual_cmd, Run (speed_cmd FAN_MAX),
                           Sleep INTERVAL]\<rparr>"
  have c1: "cycle ?e1 init = Inr ((), ?end1)" by code_simp
  have g1: "get_gpu_data ?e1 init = Inr ((52, 35), ?s1)" by code_simp
  have t1: "get_cpu_temp ?e1 ?s1 = Inr (42, ?s1)" by code_simp
  have d1: "fst (determine_fan_speed ?s1 52 42 35) = current_speed init" by code_simp
  have same: "filter is_actuator (calls ?end1) = filter is_actuator (calls init)
        \<and> current_speed ?end1 = current_speed init"
    using cycle_commits_only_on_change [OF c1 g1 t1] d1 by blast
  have c2: "cycle ?e2 init = Inr ((), ?end2)" by code_simp
  have g2: "get_gpu_data ?e2 init = Inr ((85, 10), ?s1)" by code_simp
  have t2: "get_cpu_temp ?e2 ?s1 = Inr (42, ?s1)" by code_simp
  have d2: "fst (determine_fan_speed ?s1 85 42 10) \<noteq> current_speed init" by code_simp
  have "\<exists>rest. filter is_actuator (calls ?end2)
                 = filter is_actuator (calls init) @ Run manual_cmd # rest"
    using cycle_commits_only_on_change [OF c2 g2 t2] d2 by blast
  then have changed: "\<exists>rest. filter is_actuator [Run nvidia_cmd, Run manual_cmd,
                       Run (speed_cmd FAN_MAX), Sleep INTERVAL] = Run manual_cmd # rest"
    by (simp add: init_def)
  show ?thesis using c1 c2 changed by blast
qed

section \<open>A failed commit\<close>

text \<open>
  Whatever the exit status of the two commands, as long as both can be started and no
  signal is handled, \<open>set_fan_speed\<close> takes the new speed as set.
\<close>

lemma set_fan_speed_ignores_exit_status:
  assumes "undisturbed e st 7"
    and "proc e (length (calls st)) manual_cmd \<noteq> SpawnError"
    and "proc e (Suc (length (calls st))) (speed_cmd speed) \<noteq> SpawnError"
  shows "\<exists>st'. set_fan_speed e speed reason st = Inr ((), st') \<and> current_speed st' = speed"
proof -
  have q: "events st + i \<notin> set (signals e)" if "0 < i" "i \<le> 7" for i
    using assms(1) that by (fastforce simp: undisturbed_def)
  have u1: "undisturbed e st 3" using assms(1) by (rule undisturbed_less) simp
  obtain v1 st1 where r1: "run_command e manual_cmd False st = Inr (v1, st1)"
    and l1: "calls st1 = calls st @ [Run manual_cmd]"
    and e1: "events st < events st1" "events st1 \<le> events st + 3"
    using assms(2) run_command_Exit0 [OF undisturbed_1 [OF u1], of manual_cmd _ False]
      run_command_NonZero [OF u1, of manual_cmd False]
    by (cases "proc e (length (calls st)) manual_cmd") auto
  have u2: "undisturbed e st1 3"
    using assms(1) e1 by (fastforce simp: undisturbed_def)
  have p2: "proc e (length (calls st1)) (speed_cmd speed) \<noteq> SpawnError" using l1 assms(3) by simp
  obtain v2 st2 where r2: "run_command e (speed_cmd speed) False st1 = Inr (v2, st2)"
    and e2: "events st1 < events st2" "events st2 \<le> events st1 + 3"
    using p2 run_command_Exit0 [OF undisturbed_1 [OF u2], of "speed_cmd speed" _ False]
      run_command_NonZero [OF u2, of "speed_cmd speed" False]
    by (cases "proc e (length (calls st1)) (speed_cmd speed)") auto
  have "Suc (events st2) \<notin> set (signals e)"
    using q [of "Suc (events st2) - events st"] e1 e2 by auto
  then show ?thesis using r1 r2
    by (simp add: set_fan_speed_def except_Exception_def seq_def logger_quiet)
qed

text \<open>
  C1 does not hold of the code. With \<open>current_speed\<close> at \<open>FAN_DEFAULT\<close> and a BMC that
  rejects every \<open>ipmitool\<close> command, \<open>set_fan_speed FAN_MAX\<close> logs both failures, then
  logs the fan speed as set and advances \<open>current_speed\<close> to \<open>FAN_MAX\<close>:
  \<open>run_command\<close> has swallowed the \<open>CalledProcessError\<close> that the handler of
  \<open>set_fan_speed\<close> waits for.
\<close>

theorem failed_commit_still_advances:
  "proc bmc_down 0 manual_cmd = NonZero \<and> proc bmc_down 1 (speed_cmd FAN_MAX) = NonZero
   \<and> current_speed init = FAN_DEFAULT \<and> FAN_MAX \<noteq> FAN_DEFAULT
   \<and> set_fan_speed bmc_down FAN_MAX ''CRITICAL temperature'' init
     = Inr ((), \<lparr>current_speed = FAN_MAX,
                 logged = [(ERROR, CommandFailed manual_cmd), (ERROR, ErrorIs CalledProcessError),
                           (ERROR, CommandFailed (speed_cmd FAN_MAX)),
                           (ERROR, ErrorIs CalledProcessError),
                           (INFO, FanSpeedSet FAN_MAX ''CRITICAL temperature'')],
                 calls = [Run manual_cmd, Run (speed_cmd FAN_MAX)]\<rparr>)"
  by code_simp

section \<open>A pending signal ends the run\<close>

lemma passed_refl [simp]: "passed e st st"
  by (auto simp: passed_def)

lemma passed_trans: "passed e st st1 \<Longrightarrow> passed e st1 st2 \<Longrightarrow> passed e st st2"
  by (fastforce simp: passed_def)

lemma passed_step:
  "passed e st st1 \<Longrightarrow> events st2 = Suc (events st1) \<Longrightarrow> events st2 \<notin> set (signals e) \<Longrightarrow>
   passed e st st2"
  unfolding passed_def
  by (metis Suc_lessI le_SucI less_SucI)

lemma passed_speed [simp]: "passed e st (st'\<lparr>current_speed := v\<rparr>) = passed e st st'"
  by (simp add: passed_def events_def)

lemma passes_Inr [simp]: "passes e st (Inr (v, st')) = passed e st st'"
  by (simp add: passes_def)

lemma passes_Inl [simp]: "passes e st (Inl (x, st')) = (is_Exception x \<longrightarrow> passed e st st')"
  by (simp add: passes_def)

lemma passes_handler [simp]: "passes e st (Inl (handler e s))"
  using handler_eq [of e s] by (metis passes_Inl is_Exception.simps(2))

lemma passes_after: "passed e st st1 \<Longrightarrow> passes e st1 r \<Longrightarrow> passes e st r"
  by (cases r) (auto simp: passes_def intro: passed_trans)

lemma passes_seq:
  assumes "passes e st (m st)" and "\<And>v st1. passes e st1 (f v st1)"
  shows "passes e st (seq m f st)"
proof (cases "m st")
  case (Inl r)
  then show ?thesis using assms(1) by (cases r) (simp add: seq_def)
next
  case (Inr r)
  obtain v st1 where r: "r = (v, st1)" by (cases r)
  have "passed e st st1" using assms(1) Inr r by simp
  then have "passes e st (f v st1)" using assms(2) by (rule passes_after)
  then show ?thesis using Inr r by (simp add: seq_def)
qed

lemma passes_except_Exception:
  assumes "passes e st (m st)" and "\<And>x st1. passes e st1 (h x st1)"
  shows "passes e st (except_Exception m h st)"
proof (cases "m st")
  case (Inl r)
  obtain x st1 where r: "r = (x, st1)" by (cases r)
  show ?thesis
  proof (cases "is_Exception x")
    case True
    then have "passed e st st1" using assms(1) Inl r by simp
    then have "passes e st (h x st1)" using assms(2) by (rule passes_after)
    then show ?thesis using Inl r True by (simp add: except_Exception_def)
  next
    case False
    then show ?thesis using Inl r by (simp add: except_Exception_def)
  qed
next
  case (Inr r)
  then show ?thesis using assms(1) by (cases r) (simp add: except_Exception_def)
qed

lemma passes_ret [simp]: "passes e st (ret v st)"
  by (simp add: ret_def)

lemma passes_lift [simp]: "passes e st (lift r st)"
  by (cases r) (auto simp: lift_def)

lemma passes_logger [simp]: "passes e st (logger e lv m st)"
  by (auto simp: logger_def Let_def intro: passed_step [OF passed_refl])

lemma passes_subprocess_run [simp]: "passes e st (subprocess_run e c st)"
  by (auto simp: subprocess_run_def Let_def finish_def split: proc_result.splits
           intro: passed_step [OF passed_refl])

lemma passes_time_sleep [simp]: "passes e st (time_sleep e secs st)"
  by (auto simp: time_sleep_def Let_def intro: passed_step [OF passed_refl])

lemma passes_run_command [simp]: "passes e st (run_command e c cap st)"
proof (cases "subprocess_run e c st")
  case (Inl r)
  obtain x st1 where r: "r = (x, st1)" by (cases r)
  have s: "passes e st (Inl (x, st1) :: string res)"
    using passes_subprocess_run [of e st c] Inl r by simp
  show ?thesis
  proof (cases "x = CalledProcessError")
    case True
    then have c: "passed e st st1" using s by simp
    have "passes e st1 (seq (logger e ERROR (CommandFailed c)) (\<lambda>u1.
               seq (logger e ERROR (ErrorIs x)) (\<lambda>u2. ret None)) st1)"
      by (intro passes_seq passes_logger passes_ret)
    then show ?thesis using Inl r True passes_after [OF c] by (simp add: run_command_def)
  next
    case False
    then show ?thesis using Inl r s by (simp add: run_command_def)
  qed
next
  case (Inr r)
  then show ?thesis using passes_subprocess_run [of e st c]
    by (cases r) (simp add: run_command_def)
qed

lemma passes_set_fan_speed [simp]: "passes e st (set_fan_speed e speed reason st)"
  unfolding set_fan_speed_def
  by (intro passes_except_Exception passes_seq passes_run_command passes_logger) simp

lemma passes_get_gpu_data [simp]: "passes e st (get_gpu_data e st)"
  unfolding get_gpu_data_def
  by (intro passes_except_Exception passes_seq passes_run_command passes_logger passes_ret)
     (auto split: option.splits)

lemma passes_warning:
  "passed e st st1 \<Longrightarrow>
   passes e st (seq (logger e WARNING (FailedCpuSensors x)) (\<lambda>u. ret m) st1)"
  by (rule passes_after) (auto intro!: passes_seq)

lemma passes_get_cpu_temp [simp]: "passes e st (get_cpu_temp e st)"
proof (cases "zone_loop e (zones e (length (calls st))) 0")
  case (Inl x)
  then show ?thesis by (simp add: get_cpu_temp_def)
next
  case (Inr max_temp)
  have rc: "passes e st (run_command e sensors_cmd True st)" by simp
  show ?thesis
  proof (cases "run_command e sensors_cmd True st")
    case (Inl r)
    obtain x st1 where r: "r = (x, st1)" by (cases r)
    show ?thesis using rc Inl r Inr
      by (auto simp: get_cpu_temp_def passes_warning)
  next
    case Inr2: (Inr r)
    obtain v st1 where r: "r = (v, st1)" by (cases r)
    have "passed e st st1" using rc Inr2 r by simp
    then show ?thesis using Inr Inr2 r
      by (auto simp: get_cpu_temp_def passes_warning split: option.splits prod.splits)
  qed
qed

lemma passes_cycle [simp]: "passes e st (cycle e st)"
  by (auto simp: cycle_def split: prod.splits
           intro!: passes_seq passes_get_gpu_data passes_get_cpu_temp passes_logger
                   passes_set_fan_speed passes_time_sleep passes_ret)

lemma seq_Inr:
  "seq m f st = Inr r \<Longrightarrow> \<exists>v st1. m st = Inr (v, st1) \<and> f v st1 = Inr r"
  by (auto simp: seq_def split: sum.splits)

text \<open>
  A cycle that completes has issued at least one event, its sleep.
\<close>

lemma cycle_advances:
  assumes "cycle e st = Inr (u, st')"
  shows "events st < events st'"
proof -
  obtain gpu_temp gpu_util st1 where g: "get_gpu_data e st = Inr ((gpu_temp, gpu_util), st1)"
    and r1: "seq (get_cpu_temp e) (\<lambda>cpu_temp.
       seq (logger e INFO (SystemTemperatures gpu_temp cpu_temp gpu_util)) (\<lambda>u1 st.
       (case determine_fan_speed st gpu_temp cpu_temp gpu_util of
          (new_speed, reason) \<Rightarrow>
            seq (if new_speed \<noteq> current_speed st then set_fan_speed e new_speed reason
                 else ret ())
                (\<lambda>u2. time_sleep e INTERVAL) st))) st1 = Inr (u, st')"
    using seq_Inr [OF assms [unfolded cycle_def]] by auto
  obtain cpu_temp st2 where c: "get_cpu_temp e st1 = Inr (cpu_temp, st2)"
    and r2: "seq (logger e INFO (SystemTemperatures gpu_temp cpu_temp gpu_util)) (\<lambda>u1 st.
       (case determine_fan_speed st gpu_temp cpu_temp gpu_util of
          (new_speed, reason) \<Rightarrow>
            seq (if new_speed \<noteq> current_speed st then set_fan_speed e new_speed reason
                 else ret ())
                (\<lambda>u2. time_sleep e INTERVAL) st)) st2 = Inr (u, st')"
    using seq_Inr [OF r1] by auto
  obtain u1 st3 where l: "logger e INFO (SystemTemperatures gpu_temp cpu_temp gpu_util) st2
                          = Inr (u1, st3)"
    and r3: "(case determine_fan_speed st3 gpu_temp cpu_temp gpu_util of
          (new_speed, reason) \<Rightarrow>
            seq (if new_speed \<noteq> current_speed st3 then set_fan_speed e new_speed reason
                 else ret ())
                (\<lambda>u2. time_sleep e INTERVAL) st3) = Inr (u, st')"
    using seq_Inr [OF r2] by auto
  obtain new_speed reason where d:
    "determine_fan_speed st3 gpu_temp cpu_temp gpu_util = (new_speed, reason)"
    by (cases "determine_fan_speed st3 gpu_temp cpu_temp gpu_util")
  let ?commit = "if new_speed \<noteq> current_speed st3 then set_fan_speed e new_speed reason
                 else ret ()"
  have r4: "seq ?commit (\<lambda>u2. time_sleep e INTERVAL) st3 = Inr (u, st')"
    using r3 d by simp
  obtain u2 st4 where f: "?commit st3 = Inr (u2, st4)"
    and t: "time_sleep e INTERVAL st4 = Inr (u, st')"
    using seq_Inr [OF r4] by auto
  have p1: "passed e st st1" using passes_get_gpu_data [of e st] g by simp
  have p2: "passed e st1 st2" using passes_get_cpu_temp [of e st1] c by simp
  have p3: "passed e st2 st3"
    using passes_logger [of e st2 INFO "SystemTemperatures gpu_temp cpu_temp gpu_util"] l
    by simp
  have "passes e st3 (?commit st3)" by simp
  then have p4: "passed e st3 st4" using f by simp
  have "events st \<le> events st4"
    using p1 p2 p3 p4 by (simp add: passed_def)
  moreover have "events st' = Suc (events st4)" using time_sleep_Inr [OF t] by simp
  ultimately show ?thesis by simp
qed

lemma loop_None:
  "loop e n st = None \<Longrightarrow> \<exists>st'. passed e st st' \<and> events st + n \<le> events st'"
proof (induction n arbitrary: st)
  case 0
  then show ?case using passed_refl by fastforce
next
  case (Suc n)
  then obtain u st1 where c: "cycle e st = Inr (u, st1)" and l: "loop e n st1 = None"
    by (auto split: sum.splits)
  obtain st' where s: "passed e st1 st'" "events st1 + n \<le> events st'"
    using Suc.IH [OF l] by blast
  have "passed e st st1" using passes_cycle [of e st] c by simp
  then have "passed e st st'" using s(1) by (rule passed_trans)
  moreover have "events st + Suc n \<le> events st'" using cycle_advances [OF c] s(2) by simp
  ultimately show ?case by blast
qed

lemma passes_check_loop: "passes e st (check_loop e cmds st)"
proof (induction cmds arbitrary: st)
  case Nil
  then show ?case by (simp add: check_loop.simps)
next
  case (Cons cmd rest)
  have sr: "passes e st (subprocess_run e (''which '' @ cmd) st)" by simp
  show ?case
  proof (cases "subprocess_run e (''which '' @ cmd) st")
    case (Inl r)
    obtain x st1 where r: "r = (x, st1)" by (cases r)
    show ?thesis
    proof (cases "x = CalledProcessError")
      case True
      then have p: "passed e st st1" using sr unfolding Inl r by simp
      let ?fail = "seq (logger e ERROR (RequiredNotInstalled cmd)) (\<lambda>u1.
               seq (if cmd = ''ipmitool''
                    then logger e ERROR (InstallHint ''Install with: sudo apt-get install ipmitool'')
                    else if cmd = ''nvidia-smi''
                    then logger e ERROR (InstallHint ''Install NVIDIA drivers'')
                    else ret ()) (\<lambda>u2 s.
               Inl (SystemExit 1, s)))"
      have "passes e st1 (?fail st1)"
        by (intro passes_seq passes_logger) simp_all
      then have a: "passes e st (?fail st1)" using p by (rule passes_after [rotated])
      have eq: "check_loop e (cmd # rest) st = ?fail st1"
        using Inl r True by (simp add: check_loop.simps)
      show ?thesis unfolding eq by (rule a)
    next
      case False
      have a: "is_Exception x \<longrightarrow> passed e st st1" using sr unfolding Inl r by simp
      have eq: "check_loop e (cmd # rest) st = Inl (x, st1)"
        using Inl r False by (simp add: check_loop.simps)
      show ?thesis unfolding eq using a by simp
    qed
  next
    case (Inr r)
    obtain v st1 where r: "r = (v, st1)" by (cases r)
    have p: "passed e st st1" using sr unfolding Inr r by simp
    have eq: "check_loop e (cmd # rest) st = check_loop e rest st1"
      using Inr r by (simp add: check_loop.simps)
    show ?thesis unfolding eq using p Cons.IH [of st1] by (rule passes_after)
  qed
qed

text \<open>
  The loop does not outrun a signal: when a signal is still to be handled, the run ends,
  within as many iterations as the signal's event count. By \<open>run_outcome\<close> it then ends
  in a run of the handler, unless the dependency check fails first.
\<close>

lemma signal_ends_the_run:
  assumes k: "k \<in> set (signals e)" and le: "events st \<le> k"
  shows "\<exists>r. run e (Suc k) st = Some r"
proof (cases "events st \<in> set (signals e)")
  case True
  then show ?thesis by (simp add: run_def)
next
  case quiet: False
  then have lt: "events st < k" using k le by (cases "events st = k") auto
  show ?thesis
  proof (cases "check_commands e st")
    case (Inl r)
    then show ?thesis using quiet by (simp add: run_def)
  next
    case (Inr p1)
    obtain u1 st1 where p1: "p1 = (u1, st1)" by (cases p1)
    have q1: "passed e st st1"
      using passes_check_loop [of e st "[''ipmitool'', ''nvidia-smi'']"] Inr p1
      by (simp add: check_commands_def)
    let ?start = "seq (logger e INFO Starting) (\<lambda>u s.
                        set_fan_speed e (current_speed s) ''initial setting'' s)"
    have ps: "passes e st1 (?start st1)" by (intro passes_seq passes_logger) simp
    show ?thesis
    proof (cases "?start st1")
      case (Inl r2)
      then show ?thesis using quiet Inr p1 by (simp add: run_def)
    next
      case Inr2: (Inr p2)
      obtain u2 st2 where p2: "p2 = (u2, st2)" by (cases p2)
      have "passed e st1 st2" using ps Inr2 p2 by simp
      then have q2: "passed e st st2" using q1 by (rule passed_trans [rotated])
      then have k2: "events st2 < k" using k lt by (auto simp: passed_def)
      have "loop e (Suc k) st2 \<noteq> None"
      proof
        assume "loop e (Suc k) st2 = None"
        then obtain st' where s: "passed e st2 st'" "events st2 + Suc k \<le> events st'"
          using loop_None by blast
        then show False using k k2 by (auto simp: passed_def)
      qed
      then obtain x st3 where lp: "loop e (Suc k) st2 = Some (x, st3)" by auto
      show ?thesis using quiet Inr p1 Inr2 p2 lp by (simp add: run_def)
    qed
  qed
qed

section \<open>The threshold policy: critical readings, dead zone, duty table\<close>

text \<open>
  C3. Whenever the GPU temperature is at least \<open>GPU_TEMP_CRITICAL\<close> (80) or the CPU
  temperature is at least \<open>CPU_TEMP_CRITICAL\<close> (75), \<open>determine_fan_speed\<close> returns the
  level \<open>FAN_MAX\<close>, whatever the utilisation and the current level are.
\<close>

theorem critical_gives_max:
  assumes "gpu_temp \<ge> GPU_TEMP_CRITICAL \<or> cpu_temp \<ge> CPU_TEMP_CRITICAL"
  shows "fst (determine_fan_speed self gpu_temp cpu_temp gpu_util) = FAN_MAX"
  using assms by (auto simp: determine_fan_speed_def)

theorem critical_gives_max_witness:
  "GPU_TEMP_CRITICAL = 80 \<and> CPU_TEMP_CRITICAL = 75
   \<and> fst (determine_fan_speed init 85 40 10) = FAN_MAX
   \<and> fst (determine_fan_speed init 20 75 0) = FAN_MAX
   \<and> FAN_MAX \<noteq> current_speed init"
  using critical_gives_max [of 85 40 init 10] critical_gives_max [of 20 75 init 0]
  by (simp add: GPU_TEMP_CRITICAL_def CPU_TEMP_CRITICAL_def FAN_MAX_def FAN_DEFAULT_def
      init_def)

text \<open>
  C4. In the hysteresis dead zone, that is when none of the four rules applies (both
  temperatures below their critical, high and medium breakpoints, utilisation below
  \<open>UTIL_HIGH\<close>, and yet not all three readings below their low breakpoints),
  \<open>determine_fan_speed\<close> returns the current level unchanged, with the reason
  "maintaining current level".
\<close>

theorem dead_zone_keeps_level:
  assumes "gpu_temp < GPU_TEMP_CRITICAL" and "cpu_temp < CPU_TEMP_CRITICAL"
    and "gpu_temp < GPU_TEMP_HIGH" and "cpu_temp < CPU_TEMP_HIGH"
    and "gpu_temp < GPU_TEMP_MEDIUM" and "cpu_temp < CPU_TEMP_MEDIUM"
    and "gpu_util < UTIL_HIGH"
    and "\<not> (gpu_temp < GPU_TEMP_LOW \<and> cpu_temp < CPU_TEMP_LOW \<and> gpu_util < UTIL_LOW)"
  shows "determine_fan_speed self gpu_temp cpu_temp gpu_util
         = (current_speed self, ''maintaining current level'')"
  using assms by (simp add: determine_fan_speed_def)

theorem dead_zone_keeps_level_witness:
  "determine_fan_speed (init\<lparr>current_speed := FAN_HIGH\<rparr>) 55 30 20
   = (FAN_HIGH, ''maintaining current level'')"
proof -
  have "determine_fan_speed (init\<lparr>current_speed := FAN_HIGH\<rparr>) 55 30 20
        = (current_speed (init\<lparr>current_speed := FAN_HIGH\<rparr>), ''maintaining current level'')"
    by (rule dead_zone_keeps_level)
       (simp_all add: GPU_TEMP_CRITICAL_def CPU_TEMP_CRITICAL_def GPU_TEMP_HIGH_def
          CPU_TEMP_HIGH_def GPU_TEMP_MEDIUM_def CPU_TEMP_MEDIUM_def UTIL_HIGH_def
          GPU_TEMP_LOW_def)
  then show ?thesis by simp
qed

text \<open>
  C8. The duty values of the four levels increase strictly:
  \<open>FAN_DEFAULT < FAN_MEDIUM < FAN_HIGH < FAN_MAX\<close>.
\<close>

theorem duty_strictly_increasing:
  "FAN_DEFAULT < FAN_MEDIUM \<and> FAN_MEDIUM < FAN_HIGH \<and> FAN_HIGH < FAN_MAX"
  by (simp add: FAN_DEFAULT_def FAN_MEDIUM_def FAN_HIGH_def FAN_MAX_def)

end
